theory Spec2Isabelle
  imports Main "HOL-Library.Word" "HOL-Library.Signed_Division" "HOL-Library.Sublist"
begin

section \<open>CalmDrafts: draft classification, retention and the check cycle\<close>

text \<open>
  A shallow embedding of the Go program: \<^verbatim>\<open>internal/gmail/client.go\<close> (the draft listing
  and the emptiness check), \<^verbatim>\<open>internal/notifier/notifier.go\<close> (the notification messages),
  \<^verbatim>\<open>internal/config/config.go\<close> (loading the configuration) and
  \<^verbatim>\<open>cmd/calmdrafts/main.go\<close> (the check cycle and the start of \<^verbatim>\<open>main\<close>).

  Go's \<^verbatim>\<open>error\<close> values are modelled by their message. A run-time panic (a nil pointer
  dereference, \<^verbatim>\<open>time.NewTicker\<close> on a non-positive period) is the outcome \<open>Panic\<close>:
  the call does not return.
\<close>

type_synonym err = string

datatype 'a outcome = Return 'a | Panic

subsection \<open>Time\<close>

text \<open>
  \<^verbatim>\<open>time.Duration\<close> is an \<^verbatim>\<open>int64\<close> count of nanoseconds: a 64-bit word read as signed, whose
  negation wraps. An instant of \<^verbatim>\<open>time.Time\<close> is modelled as the integer number of
  nanoseconds since the Unix epoch; the library's saturation of \<^verbatim>\<open>Time.Add\<close> lies beyond
  a range of 292 billion years and is not modelled. The zero \<^verbatim>\<open>Time\<close> is
  January 1, year 1, 00:00:00 UTC, which is 62135596800 seconds before the Unix epoch.
\<close>

type_synonym Duration = "64 word"
type_synonym Time = int

definition Nanosecond :: int where "Nanosecond = 1"
definition Second :: int where "Second = 1000000000 * Nanosecond"
definition Hour :: int where "Hour = 3600 * Second"

definition zero_Time :: Time where
  "zero_Time = - 62135596800 * Second"

definition time_Unix :: "int \<Rightarrow> Time" where
  \<comment> \<open>\<^verbatim>\<open>time.Unix(sec, 0)\<close>\<close>
  "time_Unix sec = sec * Second"

definition time_Before :: "Time \<Rightarrow> Time \<Rightarrow> bool" where
  \<comment> \<open>\<^verbatim>\<open>t.Before(u)\<close>\<close>
  "time_Before t u = (t < u)"

definition time_Add :: "Time \<Rightarrow> Duration \<Rightarrow> Time" where
  \<comment> \<open>\<^verbatim>\<open>t.Add(d)\<close>\<close>
  "time_Add t d = t + sint d"

subsection \<open>The Gmail API's message types\<close>

text \<open>
  The types of \<^verbatim>\<open>google.golang.org/api/gmail/v1\<close> that the program reads. Every pointer
  is an \<open>option\<close>, \<open>None\<close> being \<^verbatim>\<open>nil\<close>.
\<close>

record MessagePartHeader =
  Name :: string
  Value :: string

record MessagePartBody =
  Size :: "64 word"

datatype MessagePart = MessagePart
  (Headers: "MessagePartHeader option list")
  (Body: "MessagePartBody option")
  (Parts: "MessagePart option list")

record gmail_Message =
  Message_Id :: string
  Message_InternalDate :: "64 word"
  Message_Payload :: "MessagePart option"

record gmail_Draft =
  Draft_Id :: string
  Draft_Message :: "gmail_Message option"

record ListDraftsResponse =
  Drafts :: "gmail_Draft option list"

subsection \<open>\<^verbatim>\<open>client.go\<close>: the draft record and the emptiness check\<close>

record Draft =
  ID :: string
  MessageID :: string
  Subject :: string
  To :: string
  InternalDate :: Time
  IsEmpty :: bool

text \<open>The zero value of the struct: what \<^verbatim>\<open>&Draft{...}\<close> leaves in the fields it does not name.\<close>

definition Draft_zero :: Draft where
  "Draft_zero = \<lparr>ID = '''', MessageID = '''', Subject = '''', To = '''',
     InternalDate = zero_Time, IsEmpty = False\<rparr>"

text \<open>
  \<^verbatim>\<open>isEmpty\<close> (client.go:179): a nil payload is empty; a body of positive size is content;
  otherwise the parts are checked in order, stopping at the first one that has content.
\<close>

function isEmpty :: "MessagePart option \<Rightarrow> bool"
  and isEmpty_parts :: "MessagePart option list \<Rightarrow> bool" where
  "isEmpty None = True"
| "isEmpty (Some payload) =
     (if (case Body payload of None \<Rightarrow> False | Some body \<Rightarrow> 0 <s Size body) then False
      else isEmpty_parts (Parts payload))"
| "isEmpty_parts [] = True"
| "isEmpty_parts (part # rest) = (if \<not> isEmpty part then False else isEmpty_parts rest)"
  by pat_completeness auto
termination
proof (relation "measure (case_sum (size_option size) (size_list (size_option size)))")
  fix payload :: MessagePart
  show "(Inr (Parts payload), Inl (Some payload))
      \<in> measure (case_sum (size_option size) (size_list (size_option size)))"
    by (cases payload) simp
qed auto


subsection \<open>What a run does: events\<close>

text \<open>
  Every call of a collaborator that changes or shows something, and every line the program
  prints or logs, is an event; a run is the list of its events in the order they happen.
  A print statement is represented by a constructor that carries the values printed
  (clock readings left out).
\<close>

datatype event =
    Log_Checking  \<comment> \<open>main.go:83\<close>
  | Log_FetchError string err  \<comment> \<open>client.go:139\<close>
  | Log_Found int int  \<comment> \<open>main.go:100\<close>
  | Notify string string "err option"  \<comment> \<open>\<^verbatim>\<open>beeep.Notify(title, message, "")\<close> and its result\<close>
  | Log_NotifyError err  \<comment> \<open>main.go:104\<close>
  | Log_Deleting string  \<comment> \<open>main.go:114\<close>
  | Delete string "err option"  \<comment> \<open>\<^verbatim>\<open>Users.Drafts.Delete(user, id).Do()\<close> and its result\<close>
  | Log_DeleteError string err  \<comment> \<open>main.go:117\<close>
  | Log_Deleted int  \<comment> \<open>main.go:125\<close>
  | Log_CleanupNotifyError err  \<comment> \<open>main.go:127\<close>
  | Log_Fatal string  \<comment> \<open>main.go:28, main.go:38\<close>
  | Log_Started  \<comment> \<open>main.go:43\<close>
  | Log_CheckError err  \<comment> \<open>main.go:48, main.go:64\<close>

text \<open>
  The world outside the program. The draft listing arrives as the pages that
  \<^verbatim>\<open>Users.Drafts.List(user).Pages\<close> hands to its callback, followed by the error that ended
  the paging, if any. \<open>drafts_get\<close> is the answer of \<^verbatim>\<open>Users.Drafts.Get\<close> for an id. The
  answer to a delete request or to a notification may depend on everything that happened
  before it. \<open>new_client\<close> is the error of \<^verbatim>\<open>gmail.NewClient\<close>, if any, and \<open>now\<close> is the
  clock reading of main.go:109.
\<close>

record World =
  list_pages :: "ListDraftsResponse list"
  list_error :: "err option"
  drafts_get :: "string \<Rightarrow> err + gmail_Draft"
  drafts_delete :: "event list \<Rightarrow> string \<Rightarrow> err option"
  beeep_notify :: "event list \<Rightarrow> string \<Rightarrow> string \<Rightarrow> err option"
  new_client :: "err option"
  now :: Time

subsection \<open>\<^verbatim>\<open>client.go\<close>: \<^verbatim>\<open>ListDrafts\<close> and \<^verbatim>\<open>DeleteDraft\<close>\<close>

text \<open>The loop over the headers (client.go:154); a nil header panics at \<^verbatim>\<open>header.Name\<close>.\<close>

fun extract_headers :: "MessagePartHeader option list \<Rightarrow> Draft \<Rightarrow> Draft outcome" where
  "extract_headers [] d = Return d"
| "extract_headers (header # rest) d =
     (case header of
        None \<Rightarrow> Panic
      | Some h \<Rightarrow>
          extract_headers rest
            (if Name h = ''Subject'' then d\<lparr>Subject := Value h\<rparr>
             else if Name h = ''To'' then d\<lparr>To := Value h\<rparr>
             else d))"

text \<open>
  The body of the loop over a page once the detail record has been fetched
  (client.go:143 to 164). \<^verbatim>\<open>draftDetail.Message.Id\<close> panics on a nil message and
  \<^verbatim>\<open>draftDetail.Message.Payload.Headers\<close> on a nil payload.
\<close>

definition ListDrafts_detail :: "gmail_Draft \<Rightarrow> gmail_Draft \<Rightarrow> Draft outcome" where
  "ListDrafts_detail draft draftDetail =
     (case Draft_Message draftDetail of
        None \<Rightarrow> Panic
      | Some message \<Rightarrow>
          (let d = Draft_zero\<lparr>ID := Draft_Id draft, MessageID := Message_Id message\<rparr>;
               d = (if 0 <s Message_InternalDate message
                    then d\<lparr>InternalDate := time_Unix (sint (Message_InternalDate message) sdiv 1000)\<rparr>
                    else d)
           in (case Message_Payload message of
                 None \<Rightarrow> Panic
               | Some payload \<Rightarrow>
                   (case extract_headers (Headers payload) d of
                      Panic \<Rightarrow> Panic
                    | Return d \<Rightarrow>
                        Return (d\<lparr>IsEmpty := (Subject d = '''' \<and> To d = ''''
                                    \<and> isEmpty (Message_Payload message))\<rparr>)))))"

text \<open>The loop over one page (client.go:136); a nil entry panics at \<^verbatim>\<open>draft.Id\<close>.\<close>

fun ListDrafts_page ::
  "World \<Rightarrow> gmail_Draft option list \<Rightarrow> Draft list \<times> event list \<Rightarrow> (Draft list \<times> event list) outcome" where
  "ListDrafts_page w [] st = Return st"
| "ListDrafts_page w (entry # rest) (drafts, tr) =
     (case entry of
        None \<Rightarrow> Panic
      | Some draft \<Rightarrow>
          (case drafts_get w (Draft_Id draft) of
             Inl e \<Rightarrow> ListDrafts_page w rest (drafts, tr @ [Log_FetchError (Draft_Id draft) e])
           | Inr draftDetail \<Rightarrow>
               (case ListDrafts_detail draft draftDetail of
                  Panic \<Rightarrow> Panic
                | Return d \<Rightarrow> ListDrafts_page w rest (drafts @ [d], tr))))"

text \<open>The callback runs on each page in turn; it never returns an error itself.\<close>

fun ListDrafts_pages ::
  "World \<Rightarrow> ListDraftsResponse list \<Rightarrow> Draft list \<times> event list \<Rightarrow> (Draft list \<times> event list) outcome" where
  "ListDrafts_pages w [] st = Return st"
| "ListDrafts_pages w (response # rest) st =
     (case ListDrafts_page w (Drafts response) st of
        Panic \<Rightarrow> Panic
      | Return st' \<Rightarrow> ListDrafts_pages w rest st')"

definition ListDrafts :: "World \<Rightarrow> event list \<Rightarrow> ((err + Draft list) \<times> event list) outcome" where
  "ListDrafts w tr =
     (case ListDrafts_pages w (list_pages w) ([], tr) of
        Panic \<Rightarrow> Panic
      | Return (drafts, tr') \<Rightarrow>
          (case list_error w of
             Some e \<Rightarrow> Return (Inl (''unable to retrieve drafts: '' @ e), tr')
           | None \<Rightarrow> Return (Inr drafts, tr')))"

definition DeleteDraft :: "World \<Rightarrow> string \<Rightarrow> event list \<Rightarrow> err option \<times> event list" where
  "DeleteDraft w draftID tr =
     (let r = drafts_delete w tr draftID
      in (case r of
            Some e \<Rightarrow> Some (''unable to delete draft '' @ draftID @ '': '' @ e)
          | None \<Rightarrow> None,
          tr @ [Delete draftID r]))"

subsection \<open>\<^verbatim>\<open>notifier.go\<close>\<close>

text \<open>\<^verbatim>\<open>fmt.Sprintf("%d", n)\<close>: the decimal digits, with a minus sign when negative.\<close>

fun fmt_nat :: "nat \<Rightarrow> string" where
  "fmt_nat n =
     (if n < 10 then [''0123456789'' ! n]
      else fmt_nat (n div 10) @ [''0123456789'' ! (n mod 10)])"

declare fmt_nat.simps [simp del]

definition fmt_d :: "int \<Rightarrow> string" where
  "fmt_d i = (if i < 0 then CHR ''-'' # fmt_nat (nat (- i)) else fmt_nat (nat i))"

record Notifier =
  appName :: string

definition New :: "string \<Rightarrow> Notifier" where
  "New name = \<lparr>appName = name\<rparr>"

definition beeep_Notify :: "World \<Rightarrow> string \<Rightarrow> string \<Rightarrow> event list \<Rightarrow> err option \<times> event list" where
  "beeep_Notify w title message tr =
     (let r = beeep_notify w tr title message in (r, tr @ [Notify title message r]))"

text \<open>The message that \<^verbatim>\<open>NotifyDraftsWithDetails\<close> builds (notifier.go:38 to 42).\<close>

definition NotifyDraftsWithDetails_message :: "int \<Rightarrow> int \<Rightarrow> string" where
  "NotifyDraftsWithDetails_message count emptyCount =
     (let message = ''You have '' @ fmt_d count @ '' draft(s) in your Gmail''
      in if emptyCount > 0 then message @ '' ('' @ fmt_d emptyCount @ '' empty)''
         else message)"

definition NotifyDraftsWithDetails ::
  "World \<Rightarrow> Notifier \<Rightarrow> int \<Rightarrow> int \<Rightarrow> event list \<Rightarrow> err option \<times> event list" where
  "NotifyDraftsWithDetails w n count emptyCount tr =
     (let title = appName n;
          message = NotifyDraftsWithDetails_message count emptyCount
      in beeep_Notify w title message tr)"

definition NotifyCleanup_message :: "int \<Rightarrow> string" where
  \<comment> \<open>notifier.go:54\<close>
  "NotifyCleanup_message deletedCount = ''Deleted '' @ fmt_d deletedCount @ '' old empty draft(s)''"

definition NotifyCleanup :: "World \<Rightarrow> Notifier \<Rightarrow> int \<Rightarrow> event list \<Rightarrow> err option \<times> event list" where
  "NotifyCleanup w n deletedCount tr =
     (if deletedCount = 0 then (None, tr)
      else let title = appName n;
               message = NotifyCleanup_message deletedCount
           in beeep_Notify w title message tr)"

definition NotifyError :: "World \<Rightarrow> Notifier \<Rightarrow> err \<Rightarrow> event list \<Rightarrow> err option \<times> event list" where
  "NotifyError w n e tr =
     (let title = appName n @ '' - Error'';
          message = ''Error: '' @ e
      in beeep_Notify w title message tr)"

subsection \<open>\<^verbatim>\<open>config.go\<close>\<close>

record Config =
  CheckInterval :: Duration
  CleanupAge :: Duration
  CredentialsPath :: string
  TokenPath :: string

definition DefaultConfig :: Config where
  "DefaultConfig = \<lparr>CheckInterval = word_of_int (1 * Hour),
     CleanupAge = word_of_int (7 * 24 * Hour),
     CredentialsPath = ''credentials.json'', TokenPath = ''token.json''\<rparr>"



subsection \<open>\<^verbatim>\<open>main.go\<close>: the check cycle\<close>

definition main_appName :: string where
  "main_appName = ''CalmDrafts''"

text \<open>The loop that counts the empty drafts (main.go:93).\<close>

fun count_empty :: "Draft list \<Rightarrow> int \<Rightarrow> int" where
  "count_empty [] emptyCount = emptyCount"
| "count_empty (draft # rest) emptyCount =
     count_empty rest (if IsEmpty draft then emptyCount + 1 else emptyCount)"

definition cutoffTime :: "Time \<Rightarrow> Config \<Rightarrow> Time" where
  \<comment> \<open>main.go:109, \<^verbatim>\<open>time.Now().Add(-cfg.CleanupAge)\<close>\<close>
  "cutoffTime t cfg = time_Add t (- CleanupAge cfg)"

text \<open>
  The deletion loop (main.go:111): the state is \<^verbatim>\<open>deletedCount\<close> and the events so far.
  A failed deletion is logged and the loop goes on to the next draft.
\<close>

fun delete_loop :: "World \<Rightarrow> Time \<Rightarrow> Draft list \<Rightarrow> int \<times> event list \<Rightarrow> int \<times> event list" where
  "delete_loop w cutoff [] st = st"
| "delete_loop w cutoff (draft # rest) (deletedCount, tr) =
     (if IsEmpty draft \<and> time_Before (InternalDate draft) cutoff then
        (case DeleteDraft w (ID draft) (tr @ [Log_Deleting (ID draft)]) of
           (Some e, tr') \<Rightarrow>
             delete_loop w cutoff rest (deletedCount, tr' @ [Log_DeleteError (ID draft) e])
         | (None, tr') \<Rightarrow> delete_loop w cutoff rest (deletedCount + 1, tr'))
      else delete_loop w cutoff rest (deletedCount, tr))"

text \<open>
  \<^verbatim>\<open>checkAndCleanDrafts\<close> (main.go:82): the error it returns (\<open>None\<close> is \<^verbatim>\<open>nil\<close>) and the
  events of the cycle.
\<close>

definition checkAndCleanDrafts :: "World \<Rightarrow> Notifier \<Rightarrow> Config \<Rightarrow> (err option \<times> event list) outcome" where
  "checkAndCleanDrafts w notif cfg =
     (case ListDrafts w [Log_Checking] of
        Panic \<Rightarrow> Panic
      | Return (Inl e, tr) \<Rightarrow>
          (let (_, tr) = NotifyError w notif e tr
           in Return (Some (''error listing drafts: '' @ e), tr))
      | Return (Inr drafts, tr) \<Rightarrow>
          (let emptyCount = count_empty drafts 0;
               tr = tr @ [Log_Found (int (length drafts)) emptyCount];
               (r, tr) = NotifyDraftsWithDetails w notif (int (length drafts)) emptyCount tr;
               tr = (case r of Some e \<Rightarrow> tr @ [Log_NotifyError e] | None \<Rightarrow> tr);
               (deletedCount, tr) = delete_loop w (cutoffTime (now w) cfg) drafts (0, tr);
               tr = (if deletedCount > 0 then
                       (let tr = tr @ [Log_Deleted deletedCount];
                            (r, tr) = NotifyCleanup w notif deletedCount tr
                        in (case r of Some e \<Rightarrow> tr @ [Log_CleanupNotifyError e] | None \<Rightarrow> tr))
                     else tr)
           in Return (None, tr)))"



subsection \<open>Reading a run\<close>

text \<open>The delete requests of a run, with their results, and the notifications sent.\<close>

fun deletions :: "event list \<Rightarrow> (string \<times> err option) list" where
  "deletions [] = []"
| "deletions (Delete i r # tr) = (i, r) # deletions tr"
| "deletions (_ # tr) = deletions tr"

fun notifications :: "event list \<Rightarrow> (string \<times> string) list" where
  "notifications [] = []"
| "notifications (Notify title message r # tr) = (title, message) # notifications tr"
| "notifications (_ # tr) = notifications tr"

definition delete_requests :: "event list \<Rightarrow> string list" where
  "delete_requests tr = map fst (deletions tr)"

definition events_of :: "('a \<times> event list) outcome \<Rightarrow> event list" where
  "events_of r = (case r of Panic \<Rightarrow> [] | Return (_, tr) \<Rightarrow> tr)"

text \<open>The number of delete requests of a run that succeeded.\<close>

definition succeeded :: "event list \<Rightarrow> nat" where
  "succeeded tr = length (filter (\<lambda>(i, r). r = None) (deletions tr))"

subsection \<open>The content-part tree, as the specification describes it\<close>

text \<open>
  The specification speaks of the parts of the tree, at any depth, and of a part having a
  body of positive declared size. \<open>all_parts\<close> lists the root and every nested sub-part;
  \<open>has_content\<close> is the test on one part.
\<close>

definition has_content :: "MessagePart \<Rightarrow> bool" where
  "has_content p = (case Body p of None \<Rightarrow> False | Some b \<Rightarrow> 0 < sint (Size b))"

function all_parts :: "MessagePart option \<Rightarrow> MessagePart list" where
  "all_parts None = []"
| "all_parts (Some p) = p # concat (map all_parts (Parts p))"
  by pat_completeness auto
termination
proof (relation "measure (size_option size)")
  fix p :: MessagePart and x
  assume "x \<in> set (Parts p)"
  then have "size_option size x \<le> size_list (size_option size) (Parts p)"
    by (simp add: size_list_estimation')
  then show "(x, Some p) \<in> measure (size_option size)"
    by (cases p) simp
qed simp

subsection \<open>The listing, as the remote system holds it\<close>

text \<open>
  The entries of all pages; whether the detail record of an entry can be fetched; the line
  logged when it cannot. An entry is well formed when it is not nil and its detail
  record, if fetched, has a message, a payload and no nil header: then nothing in
  \<^verbatim>\<open>ListDrafts\<close> dereferences nil.
\<close>

definition listed :: "World \<Rightarrow> gmail_Draft option list" where
  "listed w = concat (map Drafts (list_pages w))"

definition entry_id :: "gmail_Draft option \<Rightarrow> string" where
  "entry_id entry = (case entry of None \<Rightarrow> '''' | Some draft \<Rightarrow> Draft_Id draft)"

definition get_ok :: "World \<Rightarrow> gmail_Draft option \<Rightarrow> bool" where
  "get_ok w entry =
     (case entry of
        None \<Rightarrow> False
      | Some draft \<Rightarrow> (case drafts_get w (Draft_Id draft) of Inl _ \<Rightarrow> False | Inr _ \<Rightarrow> True))"

definition fetch_log :: "World \<Rightarrow> gmail_Draft option \<Rightarrow> event list" where
  "fetch_log w entry =
     (case entry of
        None \<Rightarrow> []
      | Some draft \<Rightarrow>
          (case drafts_get w (Draft_Id draft) of
             Inl e \<Rightarrow> [Log_FetchError (Draft_Id draft) e]
           | Inr _ \<Rightarrow> []))"

definition well_formed_detail :: "gmail_Draft \<Rightarrow> bool" where
  "well_formed_detail detail =
     (case Draft_Message detail of
        None \<Rightarrow> False
      | Some m \<Rightarrow>
          (case Message_Payload m of
             None \<Rightarrow> False
           | Some p \<Rightarrow> list_all (\<lambda>h. h \<noteq> None) (Headers p)))"

definition well_formed_entry :: "World \<Rightarrow> gmail_Draft option \<Rightarrow> bool" where
  "well_formed_entry w entry =
     (case entry of
        None \<Rightarrow> False
      | Some draft \<Rightarrow>
          (case drafts_get w (Draft_Id draft) of
             Inl _ \<Rightarrow> True
           | Inr detail \<Rightarrow> well_formed_detail detail))"

text \<open>A draft is built from the detail record that was fetched under some listed id.\<close>

definition built :: "World \<Rightarrow> Draft \<Rightarrow> bool" where
  "built w d = (\<exists>draft detail. drafts_get w (Draft_Id draft) = Inr detail
     \<and> ListDrafts_detail draft detail = Return d)"

subsection \<open>The phases of a cycle whose listing succeeded\<close>

text \<open>The events up to the deletion loop, and the events once the loop has ended.\<close>

definition after_summary :: "World \<Rightarrow> Notifier \<Rightarrow> Draft list \<Rightarrow> event list \<Rightarrow> event list" where
  "after_summary w notif drafts tr0 =
     (let tr1 = tr0 @ [Log_Found (int (length drafts)) (count_empty drafts 0)];
          s = NotifyDraftsWithDetails w notif (int (length drafts)) (count_empty drafts 0) tr1
      in (case fst s of Some e \<Rightarrow> snd s @ [Log_NotifyError e] | None \<Rightarrow> snd s))"

definition after_cleanup :: "World \<Rightarrow> Notifier \<Rightarrow> int \<times> event list \<Rightarrow> event list" where
  "after_cleanup w notif st =
     (if fst st > 0 then
        (let c = NotifyCleanup w notif (fst st) (snd st @ [Log_Deleted (fst st)])
         in (case fst c of Some e \<Rightarrow> snd c @ [Log_CleanupNotifyError e] | None \<Rightarrow> snd c))
      else snd st)"

subsection \<open>An example mailbox\<close>

text \<open>
  Six drafts on two pages, read at Unix time 1700000000: \<open>d1\<close> is empty and ten days old,
  \<open>d2\<close> has a subject and is thirty days old, the detail record of \<open>d3\<close> cannot be fetched,
  \<open>d4\<close> is empty and has no internal date, \<open>d5\<close> is empty and one day old, \<open>d6\<close> has a
  subject of one space. Deleting \<open>d4\<close> fails.
\<close>

definition ex_part :: "64 word \<Rightarrow> MessagePart" where
  "ex_part n = MessagePart [] (Some \<lparr>Size = n\<rparr>) []"

definition ex_detail :: "string \<Rightarrow> 64 word \<Rightarrow> MessagePart \<Rightarrow> gmail_Draft" where
  "ex_detail i ms payload = \<lparr>Draft_Id = i, Draft_Message =
     Some \<lparr>Message_Id = ''m'', Message_InternalDate = ms, Message_Payload = Some payload\<rparr>\<rparr>"

definition ex_get :: "string \<Rightarrow> err + gmail_Draft" where
  "ex_get i =
     (if i = ''d1'' then Inr (ex_detail i 1699136000000 (ex_part 0))
      else if i = ''d2'' then Inr (ex_detail i 1697408000000
        (MessagePart [Some \<lparr>Name = ''Subject'', Value = ''Hi''\<rparr>] None []))
      else if i = ''d4'' then Inr (ex_detail i 0 (MessagePart [] None [Some (ex_part 0), None]))
      else if i = ''d5'' then Inr (ex_detail i 1699913600000 (ex_part 0))
      else if i = ''d6'' then Inr (ex_detail i 1699136000000
        (MessagePart [Some \<lparr>Name = ''Subject'', Value = '' ''\<rparr>] (Some \<lparr>Size = 0\<rparr>) []))
      else Inl ''boom'')"

definition ex_entry :: "string \<Rightarrow> gmail_Draft option" where
  "ex_entry i = Some \<lparr>Draft_Id = i, Draft_Message = None\<rparr>"

definition ex_world :: World where
  "ex_world = \<lparr>list_pages =
       [\<lparr>Drafts = [ex_entry ''d1'', ex_entry ''d2'', ex_entry ''d3'']\<rparr>,
        \<lparr>Drafts = [ex_entry ''d4'', ex_entry ''d5'', ex_entry ''d6'']\<rparr>],
     list_error = None,
     drafts_get = ex_get,
     drafts_delete = (\<lambda>tr i. if i = ''d4'' then Some ''gone'' else None),
     beeep_notify = (\<lambda>tr title message. None),
     new_client = None,
     now = 1700000000 * Second\<rparr>"

definition ex_config :: "int \<Rightarrow> Config" where
  "ex_config hours = DefaultConfig\<lparr>CleanupAge := word_of_int (hours * Hour)\<rparr>"

definition ex_drafts :: "Draft list" where
  "ex_drafts =
     [\<lparr>ID = ''d1'', MessageID = ''m'', Subject = [], To = [],
        InternalDate = 1699136000 * Second, IsEmpty = True\<rparr>,
      \<lparr>ID = ''d2'', MessageID = ''m'', Subject = ''Hi'', To = [],
        InternalDate = 1697408000 * Second, IsEmpty = False\<rparr>,
      \<lparr>ID = ''d4'', MessageID = ''m'', Subject = [], To = [],
        InternalDate = zero_Time, IsEmpty = True\<rparr>,
      \<lparr>ID = ''d5'', MessageID = ''m'', Subject = [], To = [],
        InternalDate = 1699913600 * Second, IsEmpty = True\<rparr>,
      \<lparr>ID = ''d6'', MessageID = ''m'', Subject = '' '', To = [],
        InternalDate = 1699136000 * Second, IsEmpty = False\<rparr>]"

text \<open>
  Variations: a mailbox with the one non-empty draft \<open>d2\<close>; the example mailbox with
  notifications that fail, and with a listing that ends in an error as well; a
  configuration with negative durations.
\<close>

definition ex_world_nonempty :: World where
  "ex_world_nonempty = ex_world\<lparr>list_pages := [\<lparr>Drafts = [ex_entry ''d2'']\<rparr>]\<rparr>"

definition ex_world_mute :: World where
  "ex_world_mute = ex_world\<lparr>beeep_notify := (\<lambda>tr title message. Some ''no display'')\<rparr>"

definition ex_world_failing :: World where
  "ex_world_failing = ex_world_mute\<lparr>list_error := Some ''timeout''\<rparr>"


subsection \<open>Facts about the model\<close>

lemma deletions_append: "deletions (a @ b) = deletions a @ deletions b"
  by (induction a rule: deletions.induct) simp_all

lemma notifications_append: "notifications (a @ b) = notifications a @ notifications b"
  by (induction a rule: notifications.induct) simp_all

lemma delete_loop_requests:
  "map fst (deletions (snd (delete_loop w c ds (n, tr)))) =
     map fst (deletions tr) @ map ID (filter (\<lambda>d. IsEmpty d \<and> InternalDate d < c) ds)"
proof (induction ds arbitrary: n tr)
  case Nil
  then show ?case by simp
next
  case (Cons d ds)
  show ?case
  proof (cases "IsEmpty d \<and> InternalDate d < c")
    case False
    then show ?thesis using Cons.IH by (auto simp: time_Before_def)
  next
    case True
    then show ?thesis
      by (cases "drafts_delete w (tr @ [Log_Deleting (ID d)]) (ID d)")
        (simp_all add: time_Before_def DeleteDraft_def Let_def Cons.IH deletions_append)
  qed
qed

lemma delete_loop_notifications:
  "notifications (snd (delete_loop w c ds (n, tr))) = notifications tr"
proof (induction ds arbitrary: n tr)
  case Nil
  then show ?case by simp
next
  case (Cons d ds)
  show ?case
  proof (cases "IsEmpty d \<and> time_Before (InternalDate d) c")
    case False
    then show ?thesis using Cons.IH by auto
  next
    case True
    then show ?thesis
      by (cases "drafts_delete w (tr @ [Log_Deleting (ID d)]) (ID d)")
        (simp_all add: DeleteDraft_def Let_def Cons.IH notifications_append)
  qed
qed

lemma delete_loop_count:
  "int (succeeded (snd (delete_loop w c ds (n, tr)))) + n =
     fst (delete_loop w c ds (n, tr)) + int (succeeded tr)"
proof (induction ds arbitrary: n tr)
  case Nil
  then show ?case by simp
next
  case (Cons d ds)
  show ?case
  proof (cases "IsEmpty d \<and> time_Before (InternalDate d) c")
    case False
    then show ?thesis using Cons.IH by auto
  next
    case True
    show ?thesis
    proof (cases "drafts_delete w (tr @ [Log_Deleting (ID d)]) (ID d)")
      case None
      then show ?thesis
        using True Cons.IH [of "n + 1" "tr @ [Log_Deleting (ID d), Delete (ID d) None]"]
        by (simp add: DeleteDraft_def Let_def succeeded_def deletions_append)
    next
      case (Some e)
      then show ?thesis
        using True Cons.IH [of n "tr @ [Log_Deleting (ID d), Delete (ID d) (Some e),
          Log_DeleteError (ID d) (''unable to delete draft '' @ ID d @ '': '' @ e)]"]
        by (simp add: DeleteDraft_def Let_def succeeded_def deletions_append)
    qed
  qed
qed

lemma isEmpty_all_parts:
  "isEmpty payload \<longleftrightarrow> \<not> list_ex has_content (all_parts payload)"
  "isEmpty_parts ps \<longleftrightarrow> \<not> list_ex has_content (concat (map all_parts ps))"
proof (induction payload and ps rule: isEmpty_isEmpty_parts.induct)
  case 1
  show ?case by simp
next
  case (2 payload)
  then show ?case
    by (auto simp: has_content_def word_sless_alt list_ex_iff split: option.splits)
next
  case 3
  show ?case by simp
next
  case (4 part rest)
  then show ?case by (auto simp: list_ex_iff)
qed

lemma extract_headers_fields:
  "extract_headers hs d = Return d' \<Longrightarrow>
     ID d' = ID d \<and> MessageID d' = MessageID d \<and> InternalDate d' = InternalDate d"
  by (induction hs arbitrary: d) (auto split: option.splits if_splits)

lemma ListDrafts_detail_Return:
  assumes "ListDrafts_detail draft detail = Return d"
  shows "\<exists>m. Draft_Message detail = Some m
    \<and> ID d = Draft_Id draft
    \<and> InternalDate d = (if 0 <s Message_InternalDate m
         then time_Unix (sint (Message_InternalDate m) sdiv 1000) else zero_Time)
    \<and> (IsEmpty d \<longleftrightarrow> Subject d = '''' \<and> To d = '''' \<and> isEmpty (Message_Payload m))"
proof -
  from assms obtain m where m: "Draft_Message detail = Some m"
    by (auto simp: ListDrafts_detail_def split: option.splits)
  from assms m obtain p where p: "Message_Payload m = Some p"
    by (auto simp: ListDrafts_detail_def Let_def split: option.splits)
  define d0 where "d0 = (if 0 <s Message_InternalDate m
      then Draft_zero\<lparr>ID := Draft_Id draft, MessageID := Message_Id m,
        InternalDate := time_Unix (sint (Message_InternalDate m) sdiv 1000)\<rparr>
      else Draft_zero\<lparr>ID := Draft_Id draft, MessageID := Message_Id m\<rparr>)"
  from assms m p obtain d1 where d1: "extract_headers (Headers p) d0 = Return d1"
    and d: "d = d1\<lparr>IsEmpty := (Subject d1 = '''' \<and> To d1 = '''' \<and> isEmpty (Some p))\<rparr>"
    by (auto simp: ListDrafts_detail_def Let_def d0_def split: outcome.splits if_splits)
  from extract_headers_fields [OF d1]
  have "ID d1 = Draft_Id draft" "InternalDate d1 = InternalDate d0"
    by (simp_all add: d0_def)
  then show ?thesis using m p d
    by (auto simp: d0_def Draft_zero_def)
qed

lemma extract_headers_total:
  "list_all (\<lambda>h. h \<noteq> None) hs \<Longrightarrow> \<exists>d'. extract_headers hs d = Return d'"
  by (induction hs arbitrary: d) auto

lemma ListDrafts_detail_total:
  "well_formed_detail detail \<Longrightarrow> \<exists>d. ListDrafts_detail draft detail = Return d"
proof -
  assume wf: "well_formed_detail detail"
  then obtain m p where m: "Draft_Message detail = Some m" and p: "Message_Payload m = Some p"
    and hs: "list_all (\<lambda>h. h \<noteq> None) (Headers p)"
    by (auto simp: well_formed_detail_def split: option.splits)
  show ?thesis
    using extract_headers_total [OF hs] m p
    by (auto simp: ListDrafts_detail_def Let_def split: outcome.splits) (metis outcome.distinct(1))+
qed

lemma ListDrafts_page_wf:
  "list_all (well_formed_entry w) es \<Longrightarrow>
   \<exists>new. ListDrafts_page w es (ds, tr) = Return (ds @ new, tr @ concat (map (fetch_log w) es))
     \<and> map ID new = map entry_id (filter (get_ok w) es)"
proof (induction es arbitrary: ds tr)
  case Nil
  then show ?case by simp
next
  case (Cons entry es)
  from Cons.prems obtain draft where entry: "entry = Some draft"
    by (auto simp: well_formed_entry_def split: option.splits)
  from Cons.prems have rest: "list_all (well_formed_entry w) es" by simp
  show ?case
  proof (cases "drafts_get w (Draft_Id draft)")
    case (Inl e)
    have "\<not> get_ok w (Some draft)" "fetch_log w (Some draft) = [Log_FetchError (Draft_Id draft) e]"
      using Inl by (simp_all add: fetch_log_def get_ok_def)
    with Cons.IH [OF rest, of ds "tr @ [Log_FetchError (Draft_Id draft) e]"]
    show ?thesis using entry Inl
      by auto
  next
    case (Inr detail)
    with Cons.prems entry have "well_formed_detail detail"
      by (simp add: well_formed_entry_def)
    from ListDrafts_detail_total [OF this] obtain d
      where d: "ListDrafts_detail draft detail = Return d" by blast
    from ListDrafts_detail_Return [OF d] have id: "ID d = Draft_Id draft" by blast
    from Cons.IH [OF rest, of "ds @ [d]" tr] obtain new
      where "ListDrafts_page w es (ds @ [d], tr) = Return (ds @ [d] @ new, tr @ concat (map (fetch_log w) es))"
        and "map ID new = map entry_id (filter (get_ok w) es)" by auto
    moreover have "get_ok w (Some draft)" "fetch_log w (Some draft) = []"
      "entry_id (Some draft) = Draft_Id draft"
      using Inr by (simp_all add: fetch_log_def get_ok_def entry_id_def)
    ultimately show ?thesis using entry Inr d id
      by (intro exI [of _ "d # new"]) simp
  qed
qed

lemma ListDrafts_pages_wf:
  "list_all (well_formed_entry w) (concat (map Drafts ps)) \<Longrightarrow>
   \<exists>new. ListDrafts_pages w ps (ds, tr) =
       Return (ds @ new, tr @ concat (map (fetch_log w) (concat (map Drafts ps))))
     \<and> map ID new = map entry_id (filter (get_ok w) (concat (map Drafts ps)))"
proof (induction ps arbitrary: ds tr)
  case Nil
  then show ?case by simp
next
  case (Cons p ps)
  from Cons.prems have 1: "list_all (well_formed_entry w) (Drafts p)"
    and 2: "list_all (well_formed_entry w) (concat (map Drafts ps))" by simp_all
  from ListDrafts_page_wf [OF 1, of ds tr] obtain new1
    where a: "ListDrafts_page w (Drafts p) (ds, tr) = Return (ds @ new1, tr @ concat (map (fetch_log w) (Drafts p)))"
      and b: "map ID new1 = map entry_id (filter (get_ok w) (Drafts p))" by blast
  from Cons.IH [OF 2, of "ds @ new1" "tr @ concat (map (fetch_log w) (Drafts p))"] obtain new2
    where c: "ListDrafts_pages w ps (ds @ new1, tr @ concat (map (fetch_log w) (Drafts p))) =
        Return (ds @ new1 @ new2, tr @ concat (map (fetch_log w) (Drafts p)) @ concat (map (fetch_log w) (concat (map Drafts ps))))"
      and d: "map ID new2 = map entry_id (filter (get_ok w) (concat (map Drafts ps)))" by auto
  show ?case using a b c d
    by (intro exI [of _ "new1 @ new2"]) simp
qed

lemma ListDrafts_page_built:
  "ListDrafts_page w es (ds, tr) = Return (ds', tr') \<Longrightarrow> \<forall>d\<in>set ds. built w d
   \<Longrightarrow> \<forall>d\<in>set ds'. built w d"
proof (induction es arbitrary: ds tr)
  case Nil
  then show ?case by simp
next
  case (Cons entry es)
  from Cons.prems(1) obtain draft where entry: "entry = Some draft"
    by (auto split: option.splits)
  show ?case
  proof (cases "drafts_get w (Draft_Id draft)")
    case (Inl e)
    with Cons.prems(1) entry
    have "ListDrafts_page w es (ds, tr @ [Log_FetchError (Draft_Id draft) e]) = Return (ds', tr')"
      by simp
    from Cons.IH [OF this Cons.prems(2)] show ?thesis .
  next
    case (Inr detail)
    with Cons.prems(1) entry obtain d where d: "ListDrafts_detail draft detail = Return d"
      and rest: "ListDrafts_page w es (ds @ [d], tr) = Return (ds', tr')"
      by (auto split: outcome.splits)
    from Inr d have "built w d" unfolding built_def by blast
    with Cons.prems(2) have "\<forall>x\<in>set (ds @ [d]). built w x" by simp
    from Cons.IH [OF rest this] show ?thesis .
  qed
qed

lemma ListDrafts_page_events:
  "ListDrafts_page w es (ds, tr) = Return (ds', tr') \<Longrightarrow>
     deletions tr' = deletions tr \<and> notifications tr' = notifications tr"
proof (induction es arbitrary: ds tr)
  case Nil
  then show ?case by simp
next
  case (Cons entry es)
  from Cons.prems(1) obtain draft where entry: "entry = Some draft"
    by (auto split: option.splits)
  show ?case
  proof (cases "drafts_get w (Draft_Id draft)")
    case (Inl e)
    with Cons.prems(1) entry
    have "ListDrafts_page w es (ds, tr @ [Log_FetchError (Draft_Id draft) e]) = Return (ds', tr')"
      by simp
    from Cons.IH [OF this] show ?thesis by (simp add: deletions_append notifications_append)
  next
    case (Inr detail)
    with Cons.prems(1) entry obtain d where d: "ListDrafts_detail draft detail = Return d"
      and rest: "ListDrafts_page w es (ds @ [d], tr) = Return (ds', tr')"
      by (auto split: outcome.splits)
    from Cons.IH [OF rest] show ?thesis .
  qed
qed

lemma ListDrafts_pages_built:
  "ListDrafts_pages w ps (ds, tr) = Return (ds', tr') \<Longrightarrow> \<forall>d\<in>set ds. built w d
   \<Longrightarrow> \<forall>d\<in>set ds'. built w d"
proof (induction ps arbitrary: ds tr)
  case Nil
  then show ?case by simp
next
  case (Cons p ps)
  from Cons.prems(1) obtain ds1 tr1
    where a: "ListDrafts_page w (Drafts p) (ds, tr) = Return (ds1, tr1)"
      and b: "ListDrafts_pages w ps (ds1, tr1) = Return (ds', tr')"
    by (auto split: outcome.splits)
  from ListDrafts_page_built [OF a Cons.prems(2)]
  have "\<forall>d\<in>set ds1. built w d" .
  from Cons.IH [OF b this] show ?case .
qed

lemma ListDrafts_pages_events:
  "ListDrafts_pages w ps (ds, tr) = Return (ds', tr') \<Longrightarrow>
     deletions tr' = deletions tr \<and> notifications tr' = notifications tr"
proof (induction ps arbitrary: ds tr)
  case Nil
  then show ?case by simp
next
  case (Cons p ps)
  from Cons.prems(1) obtain ds1 tr1
    where a: "ListDrafts_page w (Drafts p) (ds, tr) = Return (ds1, tr1)"
      and b: "ListDrafts_pages w ps (ds1, tr1) = Return (ds', tr')"
    by (auto split: outcome.splits)
  from ListDrafts_page_events [OF a] Cons.IH [OF b] show ?case by simp
qed

lemma ListDrafts_events:
  "ListDrafts w tr = Return (r, tr') \<Longrightarrow>
     deletions tr' = deletions tr \<and> notifications tr' = notifications tr"
  unfolding ListDrafts_def
  by (auto split: outcome.splits option.splits dest: ListDrafts_pages_events)

lemma count_empty_filter: "count_empty ds n = n + int (length (filter IsEmpty ds))"
  by (induction ds arbitrary: n) simp_all

lemma NotifyDraftsWithDetails_events:
  "snd (NotifyDraftsWithDetails w notif c e tr) =
     tr @ [Notify (appName notif) (NotifyDraftsWithDetails_message c e)
        (fst (NotifyDraftsWithDetails w notif c e tr))]"
  by (simp add: NotifyDraftsWithDetails_def beeep_Notify_def Let_def)

lemma NotifyCleanup_events:
  "k \<noteq> 0 \<Longrightarrow> snd (NotifyCleanup w notif k tr) =
     tr @ [Notify (appName notif) (NotifyCleanup_message k) (fst (NotifyCleanup w notif k tr))]"
  by (simp add: NotifyCleanup_def beeep_Notify_def Let_def)

lemma NotifyError_events:
  "snd (NotifyError w notif e tr) =
     tr @ [Notify (appName notif @ '' - Error'') (''Error: '' @ e) (fst (NotifyError w notif e tr))]"
  by (simp add: NotifyError_def beeep_Notify_def Let_def)

lemma cycle_listed:
  assumes "ListDrafts w [Log_Checking] = Return (Inr drafts, tr0)"
  shows "checkAndCleanDrafts w notif cfg =
    Return (None, after_cleanup w notif
      (delete_loop w (cutoffTime (now w) cfg) drafts (0, after_summary w notif drafts tr0)))"
  using assms
  by (simp add: checkAndCleanDrafts_def after_summary_def after_cleanup_def Let_def split_def)

lemma cycle_failed:
  assumes "ListDrafts w [Log_Checking] = Return (Inl e, tr0)"
  shows "checkAndCleanDrafts w notif cfg =
    Return (Some (''error listing drafts: '' @ e), snd (NotifyError w notif e tr0))"
  using assms
  by (simp add: checkAndCleanDrafts_def Let_def split_def)

lemma cycle_panic:
  assumes "ListDrafts w [Log_Checking] = Panic"
  shows "checkAndCleanDrafts w notif cfg = Panic"
  using assms by (simp add: checkAndCleanDrafts_def)

lemma after_summary_events:
  "deletions (after_summary w notif drafts tr0) = deletions tr0"
  "notifications (after_summary w notif drafts tr0) = notifications tr0 @
     [(appName notif, NotifyDraftsWithDetails_message (int (length drafts)) (count_empty drafts 0))]"
  by (simp_all add: after_summary_def Let_def NotifyDraftsWithDetails_events
      deletions_append notifications_append split: option.splits)

lemma after_cleanup_events:
  "deletions (after_cleanup w notif st) = deletions (snd st)"
  "notifications (after_cleanup w notif st) = notifications (snd st) @
     (if fst st > 0 then [(appName notif, NotifyCleanup_message (fst st))] else [])"
  by (simp_all add: after_cleanup_def Let_def NotifyCleanup_events
      deletions_append notifications_append split: option.splits)

lemma cycle_deletions:
  assumes "ListDrafts w [Log_Checking] = Return (Inr drafts, tr0)"
    and "checkAndCleanDrafts w notif cfg = Return (r, tr)"
  shows "map fst (deletions tr) =
     map ID (filter (\<lambda>d. IsEmpty d \<and> InternalDate d < cutoffTime (now w) cfg) drafts)"
proof -
  from ListDrafts_events [OF assms(1)] have "deletions tr0 = []" by simp
  then show ?thesis
    using assms(2) unfolding cycle_listed [OF assms(1)]
    by (auto simp: after_cleanup_events delete_loop_requests after_summary_events)
qed

lemma cycle_count:
  assumes "ListDrafts w [Log_Checking] = Return (Inr drafts, tr0)"
    and "checkAndCleanDrafts w notif cfg = Return (r, tr)"
  shows "fst (delete_loop w (cutoffTime (now w) cfg) drafts (0, after_summary w notif drafts tr0))
     = int (succeeded tr)"
proof -
  from ListDrafts_events [OF assms(1)] have "deletions tr0 = []" by simp
  then have "succeeded (after_summary w notif drafts tr0) = 0"
    by (simp add: succeeded_def after_summary_events)
  with delete_loop_count [of w "cutoffTime (now w) cfg" drafts 0 "after_summary w notif drafts tr0"]
  show ?thesis
    using assms(2) unfolding cycle_listed [OF assms(1)]
    by (auto simp: succeeded_def after_cleanup_events)
qed

lemma cycle_notifications:
  assumes "ListDrafts w [Log_Checking] = Return (Inr drafts, tr0)"
    and "checkAndCleanDrafts w notif cfg = Return (r, tr)"
  shows "notifications tr =
     (appName notif, NotifyDraftsWithDetails_message (int (length drafts)) (count_empty drafts 0))
     # (if 0 < succeeded tr then [(appName notif, NotifyCleanup_message (int (succeeded tr)))] else [])"
proof -
  from ListDrafts_events [OF assms(1)] have "notifications tr0 = []" by simp
  moreover note cycle_count [OF assms]
  ultimately show ?thesis
    using assms(2) unfolding cycle_listed [OF assms(1)]
    by (auto simp: after_cleanup_events delete_loop_notifications after_summary_events)
qed

lemma sint_neg_int64:
  fixes a :: "64 word"
  assumes "a \<noteq> - (2 ^ 63)"
  shows "sint (- a) = - sint a"
proof -
  have lo: "- (2 ^ 63) \<le> sint a" using sint_ge [of a] by simp
  have hi: "sint a < 2 ^ 63" using sint_lt [of a] by simp
  have "sint a \<noteq> - (2 ^ 63)"
  proof
    assume "sint a = - (2 ^ 63)"
    then have "word_of_int (sint a) = (word_of_int (- (2 ^ 63)) :: 64 word)" by simp
    then have "a = - (2 ^ 63)" by simp
    with assms show False by contradiction
  qed
  with lo have "- (2 ^ 63) < sint a" by linarith
  then have "- (2 ^ 63) \<le> - sint a" "- sint a < 2 ^ 63" using hi by linarith+
  then have "signed_take_bit 63 (- sint a) = - sint a"
    by (simp add: signed_take_bit_int_eq_self)
  then show ?thesis by (simp add: sint_word_ariths)
qed

lemma cutoffTime_minus:
  "CleanupAge cfg \<noteq> - (2 ^ 63) \<Longrightarrow> cutoffTime t cfg = t - sint (CleanupAge cfg)"
  by (simp add: cutoffTime_def time_Add_def sint_neg_int64)

lemma subseq_filter_imp:
  "(\<And>x. P x \<Longrightarrow> Q x) \<Longrightarrow> subseq (map f (filter P xs)) (map f (filter Q xs))"
  by (induction xs) (auto intro: subseq_Cons2 list_emb_Cons)

lemma cycle_failed_events:
  assumes "ListDrafts w [Log_Checking] = Return (Inl e, tr0)"
    and "checkAndCleanDrafts w notif cfg = Return (r, tr)"
  shows "deletions tr = [] \<and> notifications tr = [(appName notif @ '' - Error'', ''Error: '' @ e)]"
proof -
  from ListDrafts_events [OF assms(1)] have "deletions tr0 = []" "notifications tr0 = []"
    by simp_all
  then show ?thesis
    using assms(2) unfolding cycle_failed [OF assms(1)]
    by (auto simp: NotifyError_events deletions_append notifications_append)
qed

lemma fmt_nat_no_p: "CHR ''p'' \<notin> set (fmt_nat n)"
proof (induction n rule: fmt_nat.induct)
  case (1 n)
  have d: "CHR ''p'' \<noteq> ''0123456789'' ! k" if "k < 10" for k :: nat
  proof -
    from that have "''0123456789'' ! k \<in> set ''0123456789''" by (intro nth_mem) simp
    then show ?thesis by auto
  qed
  show ?case
  proof (cases "n < 10")
    case True
    then show ?thesis using d [of n] by (subst fmt_nat.simps) simp
  next
    case False
    then show ?thesis using 1 d [of "n mod 10"] by (subst fmt_nat.simps) simp
  qed
qed

lemma fmt_d_no_p: "CHR ''p'' \<notin> set (fmt_d i)"
  by (simp add: fmt_d_def fmt_nat_no_p)

lemma message_mentions_empty:
  "sublist ''empty'' (NotifyDraftsWithDetails_message c e) \<longleftrightarrow> 0 < e"
proof (cases "0 < e")
  case True
  have "NotifyDraftsWithDetails_message c e =
      (''You have '' @ fmt_d c @ '' draft(s) in your Gmail ('' @ fmt_d e @ '' '') @ ''empty'' @ '')''"
    using True by (simp add: NotifyDraftsWithDetails_message_def)
  then show ?thesis using True unfolding sublist_def by blast
next
  case False
  have "CHR ''p'' \<notin> set (NotifyDraftsWithDetails_message c e)"
    using False by (simp add: NotifyDraftsWithDetails_message_def fmt_d_no_p)
  moreover have "CHR ''p'' \<in> set ''empty''" by simp
  ultimately have "\<not> sublist ''empty'' (NotifyDraftsWithDetails_message c e)"
    using set_mono_sublist by blast
  with False show ?thesis by simp
qed

lemma ListDrafts_wf:
  assumes "list_error w = None" and "list_all (well_formed_entry w) (listed w)"
  shows "\<exists>drafts. ListDrafts w tr = Return (Inr drafts, tr @ concat (map (fetch_log w) (listed w)))
     \<and> map ID drafts = map entry_id (filter (get_ok w) (listed w))"
  using ListDrafts_pages_wf [of w "list_pages w" "[]" tr] assms
  by (auto simp: ListDrafts_def listed_def)

section \<open>The claims\<close>

text \<open>
  C1. Every draft of a listing is classified empty exactly when its subject is the empty
  string, its recipient is the empty string, and no part of the content-part tree of its
  message (the root payload or a sub-part at any depth) has a body of size greater than
  zero. A subject of one space therefore makes a draft non-empty, and a part of size zero
  counts for nothing.
\<close>

theorem IsEmpty_iff_no_subject_recipient_content:
  assumes "ListDrafts w tr = Return (Inr drafts, tr')" and "d \<in> set drafts"
  shows "\<exists>detail m. drafts_get w (ID d) = Inr detail \<and> Draft_Message detail = Some m
    \<and> (IsEmpty d \<longleftrightarrow>
         Subject d = '''' \<and> To d = '''' \<and> \<not> list_ex has_content (all_parts (Message_Payload m)))"
proof -
  from assms(1) obtain tr1 where "ListDrafts_pages w (list_pages w) ([], tr) = Return (drafts, tr1)"
    by (auto simp: ListDrafts_def split: outcome.splits option.splits)
  from ListDrafts_pages_built [OF this] assms(2) have "built w d" by simp
  then obtain draft detail where get: "drafts_get w (Draft_Id draft) = Inr detail"
    and d: "ListDrafts_detail draft detail = Return d"
    unfolding built_def by blast
  from ListDrafts_detail_Return [OF d] obtain m where "Draft_Message detail = Some m"
    "ID d = Draft_Id draft"
    "IsEmpty d \<longleftrightarrow> Subject d = '''' \<and> To d = '''' \<and> isEmpty (Message_Payload m)"
    by blast
  with get show ?thesis
    by (auto simp: isEmpty_all_parts(1))
qed

theorem IsEmpty_iff_no_subject_recipient_content_witness:
  "ListDrafts ex_world [Log_Checking] =
     Return (Inr ex_drafts, [Log_Checking, Log_FetchError ''d3'' ''boom''])
   \<and> ex_drafts ! 4 \<in> set ex_drafts
   \<and> Subject (ex_drafts ! 4) = '' '' \<and> \<not> IsEmpty (ex_drafts ! 4)
   \<and> (\<exists>detail m. drafts_get ex_world (ID (ex_drafts ! 4)) = Inr detail
        \<and> Draft_Message detail = Some m
        \<and> (IsEmpty (ex_drafts ! 4) \<longleftrightarrow>
             Subject (ex_drafts ! 4) = '''' \<and> To (ex_drafts ! 4) = ''''
             \<and> \<not> list_ex has_content (all_parts (Message_Payload m))))"
proof -
  have 1: "ListDrafts ex_world [Log_Checking] =
      Return (Inr ex_drafts, [Log_Checking, Log_FetchError ''d3'' ''boom''])"
    by code_simp
  have 2: "ex_drafts ! 4 \<in> set ex_drafts" by (simp add: ex_drafts_def)
  have 3: "Subject (ex_drafts ! 4) = '' '' \<and> \<not> IsEmpty (ex_drafts ! 4)"
    by (simp add: ex_drafts_def)
  from IsEmpty_iff_no_subject_recipient_content [OF 1 2] 1 2 3 show ?thesis by blast
qed



text \<open>
  C3, as stated: a draft deleted at a cleanup age would be deleted at every greater age.
  In the example mailbox the ten-day-old empty draft \<open>d1\<close> is deleted at 168 hours and not at
  720 hours.
\<close>

theorem more_requests_at_larger_age_counterexample:
  "sint (CleanupAge (ex_config 168)) < sint (CleanupAge (ex_config 720))
   \<and> delete_requests (events_of (checkAndCleanDrafts ex_world (New main_appName) (ex_config 168)))
       = [''d1'', ''d4'']
   \<and> delete_requests (events_of (checkAndCleanDrafts ex_world (New main_appName) (ex_config 720)))
       = [''d4'']"
  by code_simp

text \<open>
  C3, amended. Eligibility grows as the cleanup age shrinks: with the same mailbox and clock,
  every delete request issued at a cleanup age \<open>A\<close> is issued as well at every smaller age
  \<open>A'\<close>, unless \<open>A'\<close> is the least \<^verbatim>\<open>int64\<close>, whose negation wraps around.
\<close>

theorem delete_requests_antitone_in_cleanup_age:
  assumes "A' <s A" and "A' \<noteq> - (2 ^ 63)"
    and "checkAndCleanDrafts w notif (cfg\<lparr>CleanupAge := A\<rparr>) = Return (r, tr)"
  shows "\<exists>r' tr'. checkAndCleanDrafts w notif (cfg\<lparr>CleanupAge := A'\<rparr>) = Return (r', tr')
    \<and> subseq (delete_requests tr) (delete_requests tr')"
proof -
  from assms(1) have less: "sint A' < sint A" by (simp add: word_sless_alt)
  from assms(1) have "A \<noteq> - (2 ^ 63)"
    using sint_ge [of A'] by (auto simp: word_sless_alt)
  then have cut: "cutoffTime (now w) (cfg\<lparr>CleanupAge := A\<rparr>) = now w - sint A"
    "cutoffTime (now w) (cfg\<lparr>CleanupAge := A'\<rparr>) = now w - sint A'"
    using assms(2) by (simp_all add: cutoffTime_minus)
  show ?thesis
  proof (cases "ListDrafts w [Log_Checking]")
    case Panic
    from cycle_panic [OF this] assms(3) show ?thesis by simp
  next
    case (Return res)
    obtain x tr0 where res: "res = (x, tr0)" by (cases res)
    show ?thesis
    proof (cases x)
      case (Inl e)
      with Return res have l: "ListDrafts w [Log_Checking] = Return (Inl e, tr0)" by simp
      from cycle_failed [OF l] obtain r' tr'
        where c: "checkAndCleanDrafts w notif (cfg\<lparr>CleanupAge := A'\<rparr>) = Return (r', tr')"
        by blast
      from cycle_failed_events [OF l assms(3)] cycle_failed_events [OF l c] c
      show ?thesis by (auto simp: delete_requests_def)
    next
      case (Inr drafts)
      with Return res have l: "ListDrafts w [Log_Checking] = Return (Inr drafts, tr0)" by simp
      from cycle_listed [OF l] obtain r' tr'
        where c: "checkAndCleanDrafts w notif (cfg\<lparr>CleanupAge := A'\<rparr>) = Return (r', tr')"
        by blast
      have "subseq (map ID (filter (\<lambda>d. IsEmpty d \<and> InternalDate d < now w - sint A) drafts))
         (map ID (filter (\<lambda>d. IsEmpty d \<and> InternalDate d < now w - sint A') drafts))"
        using less by (intro subseq_filter_imp) auto
      with cycle_deletions [OF l assms(3)] cycle_deletions [OF l c] c cut
      show ?thesis by (auto simp: delete_requests_def)
    qed
  qed
qed

theorem delete_requests_antitone_in_cleanup_age_witness:
  "CleanupAge (ex_config 168) <s CleanupAge (ex_config 720)
   \<and> CleanupAge (ex_config 168) \<noteq> - (2 ^ 63)
   \<and> delete_requests (events_of (checkAndCleanDrafts ex_world (New main_appName) (ex_config 720)))
       = [''d4'']
   \<and> (\<exists>r' tr'. checkAndCleanDrafts ex_world (New main_appName) (ex_config 168) = Return (r', tr')
        \<and> subseq [''d4''] (delete_requests tr'))"
proof -
  have 1: "CleanupAge (ex_config 168) <s CleanupAge (ex_config 720)" by code_simp
  have 2: "CleanupAge (ex_config 168) \<noteq> - (2 ^ 63)" by code_simp
  have 3: "checkAndCleanDrafts ex_world (New main_appName)
      ((ex_config 720)\<lparr>CleanupAge := CleanupAge (ex_config 720)\<rparr>) = Return (None,
        [Log_Checking, Log_FetchError ''d3'' ''boom'', Log_Found 5 3,
         Notify ''CalmDrafts'' ''You have 5 draft(s) in your Gmail (3 empty)'' None,
         Log_Deleting ''d4'', Delete ''d4'' (Some ''gone''),
         Log_DeleteError ''d4'' ''unable to delete draft d4: gone''])"
    by code_simp
  have 4: "(ex_config 720)\<lparr>CleanupAge := CleanupAge (ex_config 168)\<rparr> = ex_config 168"
    by (simp add: ex_config_def)
  have 5: "delete_requests (events_of (checkAndCleanDrafts ex_world (New main_appName) (ex_config 720)))
       = [''d4'']" by code_simp
  from delete_requests_antitone_in_cleanup_age [OF 1 2 3]
  have "\<exists>r' tr'. checkAndCleanDrafts ex_world (New main_appName) (ex_config 168) = Return (r', tr')
        \<and> subseq [''d4''] (delete_requests tr')"
    unfolding 4 by (simp add: delete_requests_def)
  with 1 2 5 show ?thesis by blast
qed




text \<open>
  C5. A draft whose message carries no internal date gets the zero time as its creation
  time; when the cutoff lies after the zero time, the deletion loop requests its deletion
  exactly when it is classified empty, whatever the cleanup age.
\<close>

theorem no_internal_date_is_arbitrarily_old:
  assumes "ListDrafts_detail draft detail = Return d" and "Draft_Message detail = Some m"
    and "\<not> 0 <s Message_InternalDate m" and "time_Before zero_Time (cutoffTime t cfg)"
  shows "InternalDate d = zero_Time
    \<and> delete_requests (snd (delete_loop w (cutoffTime t cfg) (d # rest) (n, tr))) =
        delete_requests tr @ (if IsEmpty d then [ID d] else [])
          @ map ID (filter (\<lambda>d. IsEmpty d \<and> InternalDate d < cutoffTime t cfg) rest)"
proof -
  from ListDrafts_detail_Return [OF assms(1)] assms(2,3) have z: "InternalDate d = zero_Time"
    by auto
  with assms(4) have "InternalDate d < cutoffTime t cfg" by (simp add: time_Before_def)
  with z show ?thesis
    using delete_loop_requests [of w "cutoffTime t cfg" "d # rest" n tr]
    by (simp add: delete_requests_def)
qed

theorem no_internal_date_is_arbitrarily_old_witness:
  "ListDrafts_detail \<lparr>Draft_Id = ''d4'', Draft_Message = None\<rparr>
      (ex_detail ''d4'' 0 (MessagePart [] None [Some (ex_part 0), None])) = Return (ex_drafts ! 2)
   \<and> \<not> 0 <s (0 :: 64 word)
   \<and> time_Before zero_Time (cutoffTime (1700000000 * Second) (ex_config 168))
   \<and> InternalDate (ex_drafts ! 2) = zero_Time \<and> IsEmpty (ex_drafts ! 2)
   \<and> delete_requests (snd (delete_loop ex_world (cutoffTime (1700000000 * Second) (ex_config 168))
        [ex_drafts ! 2] (0, []))) = [''d4'']"
proof -
  have 1: "ListDrafts_detail \<lparr>Draft_Id = ''d4'', Draft_Message = None\<rparr>
      (ex_detail ''d4'' 0 (MessagePart [] None [Some (ex_part 0), None])) = Return (ex_drafts ! 2)"
    by code_simp
  have 2: "Draft_Message (ex_detail ''d4'' 0 (MessagePart [] None [Some (ex_part 0), None]))
      = Some \<lparr>Message_Id = ''m'', Message_InternalDate = 0,
          Message_Payload = Some (MessagePart [] None [Some (ex_part 0), None])\<rparr>"
    by (simp add: ex_detail_def)
  have 3: "\<not> 0 <s Message_InternalDate \<lparr>Message_Id = ''m'', Message_InternalDate = 0,
          Message_Payload = Some (MessagePart [] None [Some (ex_part 0), None])\<rparr>"
    by simp
  have 4: "time_Before zero_Time (cutoffTime (1700000000 * Second) (ex_config 168))"
    by code_simp
  have 5: "IsEmpty (ex_drafts ! 2)" "ID (ex_drafts ! 2) = ''d4''" by (simp_all add: ex_drafts_def)
  from no_internal_date_is_arbitrarily_old [OF 1 2 3 4, of ex_world "[]" 0 "[]"] 1 4 5
  show ?thesis by (simp add: delete_requests_def del: delete_loop.simps)
qed

text \<open>
  C6. A check cycle returns an error exactly when the listing of the drafts returned one.
  Then the cycle sends the error notification and nothing else: no summary notification
  and no delete request. When the listing succeeded the cycle returns no error, whatever
  the results of the notifications and of the deletions.
\<close>

theorem cycle_fails_iff_listing_fails:
  "((\<exists>e tr. checkAndCleanDrafts w notif cfg = Return (Some e, tr))
      \<longleftrightarrow> (\<exists>e tr0. ListDrafts w [Log_Checking] = Return (Inl e, tr0)))
   \<and> (\<forall>e tr0. ListDrafts w [Log_Checking] = Return (Inl e, tr0) \<longrightarrow>
        (\<exists>tr. checkAndCleanDrafts w notif cfg = Return (Some (''error listing drafts: '' @ e), tr)
           \<and> notifications tr = [(appName notif @ '' - Error'', ''Error: '' @ e)]
           \<and> delete_requests tr = []))
   \<and> (\<forall>drafts tr0. ListDrafts w [Log_Checking] = Return (Inr drafts, tr0) \<longrightarrow>
        (\<exists>tr. checkAndCleanDrafts w notif cfg = Return (None, tr)))"
proof (intro conjI allI impI)
  show "(\<exists>e tr. checkAndCleanDrafts w notif cfg = Return (Some e, tr))
      \<longleftrightarrow> (\<exists>e tr0. ListDrafts w [Log_Checking] = Return (Inl e, tr0))"
  proof (cases "ListDrafts w [Log_Checking]")
    case Panic
    from cycle_panic [OF this] Panic show ?thesis by simp
  next
    case (Return res)
    obtain x tr0 where res: "res = (x, tr0)" by (cases res)
    show ?thesis
    proof (cases x)
      case (Inl e)
      with Return res have l: "ListDrafts w [Log_Checking] = Return (Inl e, tr0)" by simp
      from cycle_failed [OF l] l show ?thesis by simp
    next
      case (Inr drafts)
      with Return res have l: "ListDrafts w [Log_Checking] = Return (Inr drafts, tr0)" by simp
      from cycle_listed [OF l] l show ?thesis by simp
    qed
  qed
next
  fix e tr0
  assume l: "ListDrafts w [Log_Checking] = Return (Inl e, tr0)"
  from cycle_failed [OF l] obtain tr
    where tr: "checkAndCleanDrafts w notif cfg = Return (Some (''error listing drafts: '' @ e), tr)"
    by blast
  from cycle_failed_events [OF l tr] tr
  show "\<exists>tr. checkAndCleanDrafts w notif cfg = Return (Some (''error listing drafts: '' @ e), tr)
           \<and> notifications tr = [(appName notif @ '' - Error'', ''Error: '' @ e)]
           \<and> delete_requests tr = []"
    by (simp add: delete_requests_def)
next
  fix drafts tr0
  assume l: "ListDrafts w [Log_Checking] = Return (Inr drafts, tr0)"
  from cycle_listed [OF l]
  show "\<exists>tr. checkAndCleanDrafts w notif cfg = Return (None, tr)" by blast
qed

theorem cycle_fails_iff_listing_fails_witness:
  "ListDrafts ex_world_failing [Log_Checking] =
     Return (Inl ''unable to retrieve drafts: timeout'', [Log_Checking, Log_FetchError ''d3'' ''boom''])
   \<and> (\<exists>e tr. checkAndCleanDrafts ex_world_failing (New main_appName) (ex_config 168) = Return (Some e, tr))
   \<and> (\<exists>tr. checkAndCleanDrafts ex_world_failing (New main_appName) (ex_config 168) =
          Return (Some ''error listing drafts: unable to retrieve drafts: timeout'', tr)
        \<and> notifications tr = [(''CalmDrafts - Error'', ''Error: unable to retrieve drafts: timeout'')]
        \<and> delete_requests tr = [])
   \<and> ListDrafts ex_world_mute [Log_Checking] =
     Return (Inr ex_drafts, [Log_Checking, Log_FetchError ''d3'' ''boom''])
   \<and> checkAndCleanDrafts ex_world_mute (New main_appName) (ex_config 168) =
       Return (None, [Log_Checking, Log_FetchError ''d3'' ''boom'', Log_Found 5 3,
         Notify ''CalmDrafts'' ''You have 5 draft(s) in your Gmail (3 empty)'' (Some ''no display''),
         Log_NotifyError ''no display'',
         Log_Deleting ''d1'', Delete ''d1'' None, Log_Deleting ''d4'', Delete ''d4'' (Some ''gone''),
         Log_DeleteError ''d4'' ''unable to delete draft d4: gone'', Log_Deleted 1,
         Notify ''CalmDrafts'' ''Deleted 1 old empty draft(s)'' (Some ''no display''),
         Log_CleanupNotifyError ''no display''])"
proof -
  have 1: "ListDrafts ex_world_failing [Log_Checking] =
     Return (Inl ''unable to retrieve drafts: timeout'', [Log_Checking, Log_FetchError ''d3'' ''boom''])"
    by code_simp
  have 2: "ListDrafts ex_world_mute [Log_Checking] =
     Return (Inr ex_drafts, [Log_Checking, Log_FetchError ''d3'' ''boom''])"
    by code_simp
  have 3: "appName (New main_appName) = ''CalmDrafts''" by (simp add: New_def main_appName_def)
  have 4: "checkAndCleanDrafts ex_world_mute (New main_appName) (ex_config 168) =
       Return (None, [Log_Checking, Log_FetchError ''d3'' ''boom'', Log_Found 5 3,
         Notify ''CalmDrafts'' ''You have 5 draft(s) in your Gmail (3 empty)'' (Some ''no display''),
         Log_NotifyError ''no display'',
         Log_Deleting ''d1'', Delete ''d1'' None, Log_Deleting ''d4'', Delete ''d4'' (Some ''gone''),
         Log_DeleteError ''d4'' ''unable to delete draft d4: gone'', Log_Deleted 1,
         Notify ''CalmDrafts'' ''Deleted 1 old empty draft(s)'' (Some ''no display''),
         Log_CleanupNotifyError ''no display''])"
    by code_simp
  from cycle_fails_iff_listing_fails [of ex_world_failing "New main_appName" "ex_config 168"]
    cycle_fails_iff_listing_fails [of ex_world_mute "New main_appName" "ex_config 168"] 1 2 3 4
  show ?thesis by auto
qed

text \<open>
  C7. The deletion loop issues one delete request for every eligible draft, in order,
  whatever the results of the requests before it: a failed deletion neither stops the loop
  nor is tried again, and only the deletions that succeeded are counted.
\<close>

theorem deletions_are_independent:
  assumes "delete_loop w cutoff drafts (deletedCount, tr) = (deletedCount', tr')"
  shows "delete_requests tr' =
      delete_requests tr @ map ID (filter (\<lambda>d. IsEmpty d \<and> InternalDate d < cutoff) drafts)
    \<and> deletedCount' + int (succeeded tr) = deletedCount + int (succeeded tr')"
  using delete_loop_requests [of w cutoff drafts deletedCount tr]
    delete_loop_count [of w cutoff drafts deletedCount tr] assms
  by (simp add: delete_requests_def)

theorem deletions_are_independent_witness:
  "delete_loop ex_world (1700000000 * Second - 168 * Hour) ex_drafts (0, []) =
     (1, [Log_Deleting ''d1'', Delete ''d1'' None, Log_Deleting ''d4'', Delete ''d4'' (Some ''gone''),
          Log_DeleteError ''d4'' ''unable to delete draft d4: gone''])
   \<and> delete_requests [Log_Deleting ''d1'', Delete ''d1'' None, Log_Deleting ''d4'',
          Delete ''d4'' (Some ''gone''), Log_DeleteError ''d4'' ''unable to delete draft d4: gone'']
      = delete_requests [] @ map ID (filter (\<lambda>d. IsEmpty d
           \<and> InternalDate d < 1700000000 * Second - 168 * Hour) ex_drafts)
   \<and> 1 + int (succeeded []) = 0 + int (succeeded [Log_Deleting ''d1'', Delete ''d1'' None,
          Log_Deleting ''d4'', Delete ''d4'' (Some ''gone''),
          Log_DeleteError ''d4'' ''unable to delete draft d4: gone''])"
proof -
  have 1: "delete_loop ex_world (1700000000 * Second - 168 * Hour) ex_drafts (0, []) =
     (1, [Log_Deleting ''d1'', Delete ''d1'' None, Log_Deleting ''d4'', Delete ''d4'' (Some ''gone''),
          Log_DeleteError ''d4'' ''unable to delete draft d4: gone''])"
    by code_simp
  from deletions_are_independent [OF 1] 1 show ?thesis by blast
qed

text \<open>
  C8. The notifications of a cycle whose listing succeeded are the summary, followed by
  the cleanup notification with the number of deletions that succeeded exactly when
  that number is greater than zero.
\<close>

theorem cleanup_notification_iff_deleted:
  assumes "ListDrafts w [Log_Checking] = Return (Inr drafts, tr0)"
  shows "\<exists>tr. checkAndCleanDrafts w notif cfg = Return (None, tr)
    \<and> notifications tr =
        (appName notif, NotifyDraftsWithDetails_message (int (length drafts))
           (int (length (filter IsEmpty drafts))))
        # (if 0 < succeeded tr
           then [(appName notif, ''Deleted '' @ fmt_d (int (succeeded tr)) @ '' old empty draft(s)'')]
           else [])"
proof -
  from cycle_listed [OF assms] obtain tr
    where tr: "checkAndCleanDrafts w notif cfg = Return (None, tr)" by blast
  from cycle_notifications [OF assms tr] tr show ?thesis
    by (simp add: count_empty_filter NotifyCleanup_message_def)
qed

theorem cleanup_notification_iff_deleted_witness:
  "ListDrafts ex_world [Log_Checking] =
     Return (Inr ex_drafts, [Log_Checking, Log_FetchError ''d3'' ''boom''])
   \<and> (\<exists>tr. checkAndCleanDrafts ex_world (New main_appName) (ex_config 168) = Return (None, tr)
        \<and> succeeded tr = 1
        \<and> notifications tr = [(''CalmDrafts'', ''You have 5 draft(s) in your Gmail (3 empty)''),
             (''CalmDrafts'', ''Deleted 1 old empty draft(s)'')])
   \<and> ListDrafts ex_world_nonempty [Log_Checking] = Return (Inr [ex_drafts ! 1], [Log_Checking])
   \<and> (\<exists>tr. checkAndCleanDrafts ex_world_nonempty (New main_appName) (ex_config 168) = Return (None, tr)
        \<and> succeeded tr = 0
        \<and> notifications tr = [(''CalmDrafts'', ''You have 1 draft(s) in your Gmail'')])"
proof -
  have 1: "ListDrafts ex_world [Log_Checking] =
      Return (Inr ex_drafts, [Log_Checking, Log_FetchError ''d3'' ''boom''])"
    by code_simp
  have 2: "ListDrafts ex_world_nonempty [Log_Checking] = Return (Inr [ex_drafts ! 1], [Log_Checking])"
    by code_simp
  have 3: "checkAndCleanDrafts ex_world (New main_appName) (ex_config 168) = Return
     (None, [Log_Checking, Log_FetchError ''d3'' ''boom'', Log_Found 5 3,
        Notify ''CalmDrafts'' ''You have 5 draft(s) in your Gmail (3 empty)'' None,
        Log_Deleting ''d1'', Delete ''d1'' None, Log_Deleting ''d4'', Delete ''d4'' (Some ''gone''),
        Log_DeleteError ''d4'' ''unable to delete draft d4: gone'', Log_Deleted 1,
        Notify ''CalmDrafts'' ''Deleted 1 old empty draft(s)'' None])"
    by code_simp
  have 4: "checkAndCleanDrafts ex_world_nonempty (New main_appName) (ex_config 168) =
       Return (None, [Log_Checking, Log_Found 1 0,
         Notify ''CalmDrafts'' ''You have 1 draft(s) in your Gmail'' None])"
    by code_simp
  from cleanup_notification_iff_deleted [OF 1, of "New main_appName" "ex_config 168"]
    cleanup_notification_iff_deleted [OF 2, of "New main_appName" "ex_config 168"]
  show ?thesis
    unfolding 3 4 using 1 2 by (simp add: succeeded_def)
qed

text \<open>
  C9. When the paging ends without an error and nothing in the listing is nil,
  \<^verbatim>\<open>ListDrafts\<close> returns success with the drafts whose detail record could be fetched, in
  order, and logs one line for each entry whose fetch failed; those entries are missing
  from the result, and the check cycle returns no error.
\<close>

theorem failed_fetch_is_omitted:
  assumes "list_error w = None" and "list_all (well_formed_entry w) (listed w)"
  shows "\<exists>drafts. ListDrafts w tr = Return (Inr drafts, tr @ concat (map (fetch_log w) (listed w)))
     \<and> map ID drafts = map entry_id (filter (get_ok w) (listed w))
     \<and> (\<exists>tr'. checkAndCleanDrafts w notif cfg = Return (None, tr'))"
proof -
  from ListDrafts_wf [OF assms, of "[Log_Checking]"] obtain ds trc
    where "ListDrafts w [Log_Checking] = Return (Inr ds, trc)" by blast
  from cycle_listed [OF this]
  have "\<exists>tr'. checkAndCleanDrafts w notif cfg = Return (None, tr')" by blast
  with ListDrafts_wf [OF assms, of tr] show ?thesis by blast
qed

theorem failed_fetch_is_omitted_witness:
  "list_error ex_world = None \<and> list_all (well_formed_entry ex_world) (listed ex_world)
   \<and> map entry_id (listed ex_world) = [''d1'', ''d2'', ''d3'', ''d4'', ''d5'', ''d6'']
   \<and> drafts_get ex_world ''d3'' = Inl ''boom''
   \<and> (\<exists>drafts. ListDrafts ex_world [] = Return (Inr drafts, [Log_FetchError ''d3'' ''boom''])
        \<and> map ID drafts = [''d1'', ''d2'', ''d4'', ''d5'', ''d6'']
        \<and> (\<exists>tr'. checkAndCleanDrafts ex_world (New main_appName) (ex_config 168) = Return (None, tr')))"
proof -
  have 1: "list_error ex_world = None" by (simp add: ex_world_def)
  have 2: "list_all (well_formed_entry ex_world) (listed ex_world)" by code_simp
  have 3: "map entry_id (listed ex_world) = [''d1'', ''d2'', ''d3'', ''d4'', ''d5'', ''d6'']"
    by code_simp
  have 4: "drafts_get ex_world ''d3'' = Inl ''boom''" by code_simp
  have 5: "concat (map (fetch_log ex_world) (listed ex_world)) = [Log_FetchError ''d3'' ''boom'']"
    by code_simp
  have 6: "map entry_id (filter (get_ok ex_world) (listed ex_world)) = [''d1'', ''d2'', ''d4'', ''d5'', ''d6'']"
    by code_simp
  from failed_fetch_is_omitted [OF 1 2, of "[]" "New main_appName" "ex_config 168"]
  have "\<exists>drafts. ListDrafts ex_world [] = Return (Inr drafts, [Log_FetchError ''d3'' ''boom''])
        \<and> map ID drafts = [''d1'', ''d2'', ''d4'', ''d5'', ''d6'']
        \<and> (\<exists>tr'. checkAndCleanDrafts ex_world (New main_appName) (ex_config 168) = Return (None, tr'))"
    unfolding 5 6 by simp
  with 1 2 3 4 show ?thesis by blast
qed

text \<open>
  C10. The summary message mentions empty drafts exactly when \<^verbatim>\<open>emptyCount\<close> is greater
  than zero, and then ends with the count in brackets; otherwise it is the sentence with
  the total count alone. In a cycle whose listed drafts are all non-empty (none listed
  included), the summary notification carries that sentence.
\<close>

theorem summary_mentions_empty_only_when_positive:
  "(sublist ''empty'' (NotifyDraftsWithDetails_message count emptyCount) \<longleftrightarrow> 0 < emptyCount)
   \<and> (0 < emptyCount \<longrightarrow> NotifyDraftsWithDetails_message count emptyCount =
        ''You have '' @ fmt_d count @ '' draft(s) in your Gmail'' @ '' ('' @ fmt_d emptyCount @ '' empty)'')
   \<and> (\<not> 0 < emptyCount \<longrightarrow> NotifyDraftsWithDetails_message count emptyCount =
        ''You have '' @ fmt_d count @ '' draft(s) in your Gmail'')
   \<and> (\<forall>drafts tr0 r tr. ListDrafts w [Log_Checking] = Return (Inr drafts, tr0)
        \<and> checkAndCleanDrafts w notif cfg = Return (r, tr) \<and> list_all (\<lambda>d. \<not> IsEmpty d) drafts
        \<longrightarrow> hd (notifications tr) =
           (appName notif, ''You have '' @ fmt_d (int (length drafts)) @ '' draft(s) in your Gmail''))"
proof -
  have "hd (notifications tr) =
      (appName notif, ''You have '' @ fmt_d (int (length drafts)) @ '' draft(s) in your Gmail'')"
    if l: "ListDrafts w [Log_Checking] = Return (Inr drafts, tr0)"
      and c: "checkAndCleanDrafts w notif cfg = Return (r, tr)"
      and n: "list_all (\<lambda>d. \<not> IsEmpty d) drafts" for drafts tr0 r tr
  proof -
    from n have "filter IsEmpty drafts = []" by (simp add: list_all_iff filter_empty_conv)
    then have "count_empty drafts 0 = 0" by (simp add: count_empty_filter)
    with cycle_notifications [OF l c] show ?thesis
      by (simp add: NotifyDraftsWithDetails_message_def)
  qed
  then show ?thesis
    by (simp add: message_mentions_empty) (simp add: NotifyDraftsWithDetails_message_def)
qed

theorem summary_mentions_empty_only_when_positive_witness:
  "0 < (3 :: int)
   \<and> NotifyDraftsWithDetails_message 5 3 = ''You have 5 draft(s) in your Gmail (3 empty)''
   \<and> sublist ''empty'' (NotifyDraftsWithDetails_message 5 3)
   \<and> \<not> 0 < (0 :: int)
   \<and> NotifyDraftsWithDetails_message 1 0 = ''You have 1 draft(s) in your Gmail''
   \<and> \<not> sublist ''empty'' (NotifyDraftsWithDetails_message 1 0)
   \<and> ListDrafts ex_world_nonempty [Log_Checking] = Return (Inr [ex_drafts ! 1], [Log_Checking])
   \<and> list_all (\<lambda>d. \<not> IsEmpty d) [ex_drafts ! 1]
   \<and> checkAndCleanDrafts ex_world_nonempty (New main_appName) (ex_config 168) =
       Return (None, [Log_Checking, Log_Found 1 0,
         Notify ''CalmDrafts'' ''You have 1 draft(s) in your Gmail'' None])
   \<and> hd (notifications [Log_Checking, Log_Found 1 0,
         Notify ''CalmDrafts'' ''You have 1 draft(s) in your Gmail'' None]) =
       (appName (New main_appName), ''You have '' @ fmt_d (int (length [ex_drafts ! 1]))
          @ '' draft(s) in your Gmail'')"
proof -
  have 1: "ListDrafts ex_world_nonempty [Log_Checking] = Return (Inr [ex_drafts ! 1], [Log_Checking])"
    by code_simp
  have 2: "list_all (\<lambda>d. \<not> IsEmpty d) [ex_drafts ! 1]" by (simp add: ex_drafts_def)
  have 3: "checkAndCleanDrafts ex_world_nonempty (New main_appName) (ex_config 168) =
       Return (None, [Log_Checking, Log_Found 1 0,
         Notify ''CalmDrafts'' ''You have 1 draft(s) in your Gmail'' None])"
    by code_simp
  have 4: "fmt_d 5 = ''5''" "fmt_d 3 = ''3''" "fmt_d 1 = ''1''" by code_simp+
  from summary_mentions_empty_only_when_positive [of 5 3 ex_world_nonempty "New main_appName" "ex_config 168"]
    summary_mentions_empty_only_when_positive [of 1 0 ex_world_nonempty "New main_appName" "ex_config 168"]
    1 2 3 4
  show ?thesis by auto
qed

end
